theory Spec2Isabelle
  imports Main
begin

section \<open>Values exchanged with the outside world\<close>

text \<open>
  The exceptions the orchestration code can meet. \<open>BadRequestError\<close> carries the
  \<open>status_code\<close> and the \<open>body\<close> the handlers inspect (\<open>None\<close> when the body is
  not a dict); \<open>OtherException\<close> stands for any other subclass of \<open>Exception\<close>
  raised by a collaborator (Redis, the HTTP layer, a tool handler).
\<close>

datatype exn =
    BadRequestError int "(string \<times> string) list option"
  | AttributeError
  | TypeError
  | IndexError
  | JSONDecodeError
  | UnboundLocalError string
  | OtherException string

text \<open>What \<open>json.loads\<close> returns. Numbers are kept as integers: no function below
  inspects a value, only the keys of an object.\<close>

datatype json =
    JNull
  | JBool bool
  | JNumber int
  | JString string
  | JArray "json list"
  | JObject "(string \<times> json) list"

text \<open>
  The local variable \<open>response\<close> of \<open>llm_text_response\<close> starts as the string \<open>""\<close>
  and is rebound to the list returned by \<open>re.findall\<close> when the argument scan matches,
  so it holds either a \<open>str\<close> or a \<open>list\<close> of \<open>str\<close>.
\<close>

datatype resp = Str string | StrList "string list"

text \<open>\<open>response += content\<close>: string concatenation on a \<open>str\<close>; on a list, \<open>+=\<close>
  extends the list with the characters of the string, one element each.\<close>

fun resp_add :: "resp \<Rightarrow> string \<Rightarrow> resp" where
  "resp_add (Str s) t = Str (s @ t)"
| "resp_add (StrList l) t = StrList (l @ map (\<lambda>c. [c]) t)"

text \<open>\<open>if response:\<close>\<close>

fun resp_truthy :: "resp \<Rightarrow> bool" where
  "resp_truthy (Str s) = (s \<noteq> [])"
| "resp_truthy (StrList l) = (l \<noteq> [])"

text \<open>\<open>response if isinstance(response, str) else response[0]\<close>, evaluated only on
  a truthy \<open>response\<close>.\<close>

fun resp_first :: "resp \<Rightarrow> resp" where
  "resp_first (Str s) = Str s"
| "resp_first (StrList l) = (case l of [] \<Rightarrow> StrList [] | x # _ \<Rightarrow> Str x)"

definition normalise :: "resp \<Rightarrow> resp" where
  "normalise r = (if resp_truthy r then resp_first r else r)"

subsection \<open>Stream chunks\<close>

text \<open>
  One chunk of \<open>chat.completions.create(stream=True)\<close>, reduced to the attributes
  the loops read: \<open>chunk.choices\<close>, \<open>choices[0].delta\<close>, \<open>delta.tool_calls\<close>,
  \<open>delta.content\<close>, \<open>tool_calls[0].id\<close>, \<open>.function.name\<close> and
  \<open>.function.arguments\<close>. An optional attribute is an \<open>option\<close>.
\<close>

datatype function_delta =
  FunctionDelta (fn_name: "string option") (fn_arguments: "string option")

datatype tool_call_delta =
  ToolCallDelta (tc_id: "string option") (tc_function: "function_delta option")

datatype delta =
  Delta (tool_calls: "tool_call_delta list option") (content: "string option")

datatype chunk = Chunk (choices: "delta option list")

text \<open>\<open>x or ""\<close> on an optional string.\<close>

fun or_empty :: "string option \<Rightarrow> string" where
  "or_empty None = []"
| "or_empty (Some s) = s"

text \<open>Truthiness of an optional string (\<open>if tool_calls.id:\<close>).\<close>

fun str_truthy :: "string option \<Rightarrow> bool" where
  "str_truthy None = False"
| "str_truthy (Some s) = (s \<noteq> [])"

subsection \<open>Events\<close>

text \<open>
  The dict built by \<open>_create_yield_response\<close>, with the two keys that
  \<open>_enqueue_chat_messages\<close> and \<open>_enqueue_begin_messages\<close> add before the message is
  put on the queue (\<open>None\<close> while the key is absent). The \<open>time_stamp\<close> key is read
  from the wall clock and is left out.
\<close>

record event =
  coach_id :: string
  answer :: resp
  user_id :: string
  status :: string
  message_id :: "int option"
  is_final :: bool
  session_id :: "string option"
  correlation_id :: "string option"

text \<open>The attributes of \<open>LlmClient\<close> that end up in an event.\<close>

record client =
  self_coach_id :: string
  self_user_id :: string

definition create_yield_response :: "client \<Rightarrow> resp \<Rightarrow> string \<Rightarrow> int option \<Rightarrow> event" where
  "create_yield_response slf rsp st mid =
     \<lparr> coach_id = self_coach_id slf,
       answer = rsp,
       user_id = self_user_id slf,
       status = st,
       message_id = mid,
       is_final = (if st = ''done'' then True else False),
       session_id = None,
       correlation_id = None \<rparr>"

section \<open>The scan for the user-visible aside\<close>

text \<open>
  \<open>re.findall(r'"your_response":\s*"([^"]+)"', func_arguments)\<close>.
  The pattern has no choice point that backtracking could use: \<open>\s*\<close> must be followed
  by a quote, which is not white space, and \<open>[^"]+\<close> must be followed by a quote, which
  it cannot contain. So a match at a position is: the literal, all the white space, a
  quote, one or more characters other than a quote, a quote. \<open>findall\<close> scans from the
  left, resumes after each match, and returns the groups.
\<close>

definition dquote :: char where
  "dquote = CHR 0x22"

definition aside_key :: string where
  "aside_key = dquote # ''your_response'' @ [dquote, CHR '':'']"

text \<open>\<open>\s\<close> on a \<open>str\<close> pattern, for the code points below 256.\<close>

definition is_space :: "char \<Rightarrow> bool" where
  "is_space c = ((of_char c :: nat) \<in> {9, 10, 11, 12, 13, 28, 29, 30, 31, 32, 133, 160})"

fun strip_prefix :: "string \<Rightarrow> string \<Rightarrow> string option" where
  "strip_prefix [] s = Some s"
| "strip_prefix (p # ps) [] = None"
| "strip_prefix (p # ps) (c # cs) = (if p = c then strip_prefix ps cs else None)"

text \<open>A match that starts at the head of the string: the group and the length of the
  whole match.\<close>

definition match_here :: "string \<Rightarrow> (string \<times> nat) option" where
  "match_here s =
     (case strip_prefix aside_key s of
        None \<Rightarrow> None
      | Some r \<Rightarrow>
          (let ws = takeWhile is_space r; r1 = dropWhile is_space r in
           case r1 of
             [] \<Rightarrow> None
           | q # t \<Rightarrow>
               if q \<noteq> dquote then None
               else
                 (let g = takeWhile (\<lambda>c. c \<noteq> dquote) t;
                      u = dropWhile (\<lambda>c. c \<noteq> dquote) t in
                  if g = [] \<or> u = [] then None
                  else Some (g, length aside_key + length ws + 1 + length g + 1))))"

text \<open>The first argument counts the characters still covered by the previous match.\<close>

fun findall_from :: "nat \<Rightarrow> string \<Rightarrow> string list" where
  "findall_from n [] = []"
| "findall_from (Suc n) (c # cs) = findall_from n cs"
| "findall_from 0 (c # cs) =
     (case match_here (c # cs) of
        None \<Rightarrow> findall_from 0 cs
      | Some (g, len) \<Rightarrow> g # findall_from (len - 1) cs)"

definition findall_your_response :: "string \<Rightarrow> string list" where
  "findall_your_response s = findall_from 0 s"

section \<open>Consuming the model stream\<close>

text \<open>
  The locals of \<open>llm_text_response\<close> that the \<open>async for\<close> loop updates. \<open>func_call\<close>
  is the empty dict (\<open>None\<close>) or the dict with the id and the name of the open tool
  call; its \<open>"arguments"\<close> entry is \<open>{}\<close> until \<open>_handle_function_call\<close> fills it.
\<close>

record loop_state =
  func_call :: "(string \<times> string) option"
  func_arguments :: string
  response :: resp

definition init_state :: loop_state where
  "init_state = \<lparr> func_call = None, func_arguments = [], response = Str [] \<rparr>"

datatype 'a flow = Go 'a | Stop | Throw exn

text \<open>The branch \<open>if chunk.choices[0].delta and chunk.choices[0].delta.tool_calls\<close>,
  on \<open>tool_calls[0]\<close>. Reading \<open>.name\<close> or \<open>.arguments\<close> of an absent \<open>function\<close>
  raises.\<close>

definition on_tool_call :: "loop_state \<Rightarrow> tool_call_delta \<Rightarrow> loop_state flow" where
  "on_tool_call st tc =
     (if str_truthy (tc_id tc) then
        (if func_call st \<noteq> None then Stop
         else
           (case tc_function tc of
              None \<Rightarrow> Throw AttributeError
            | Some f \<Rightarrow> Go (st\<lparr>func_call := Some (or_empty (tc_id tc), or_empty (fn_name f))\<rparr>)))
      else
        (case tc_function tc of
           None \<Rightarrow> Throw AttributeError
         | Some f \<Rightarrow>
             (let fa = func_arguments st @ or_empty (fn_arguments f);
                  matches = findall_your_response fa in
              Go (st\<lparr>func_arguments := fa,
                     response := (if matches \<noteq> [] then StrList matches else response st)\<rparr>))))"

definition on_tool_calls :: "loop_state \<Rightarrow> delta \<Rightarrow> loop_state flow" where
  "on_tool_calls st d =
     (case tool_calls d of
        None \<Rightarrow> Go st
      | Some [] \<Rightarrow> Go st
      | Some (tc # _) \<Rightarrow> on_tool_call st tc)"

text \<open>
  The \<open>async for chunk in stream\<close> loop of \<open>llm_text_response\<close>. The stream is the
  list of chunks it delivers and how it ends: exhausted (\<open>None\<close>) or raising. The
  result is the locals after the loop, the events yielded inside it, and the exception
  that left it, if any.
\<close>

fun stream_loop ::
  "client \<Rightarrow> loop_state \<Rightarrow> chunk list \<Rightarrow> exn option \<Rightarrow> loop_state \<times> event list \<times> exn option"
where
  "stream_loop slf st [] fin = (st, [], fin)"
| "stream_loop slf st (c # cs) fin =
     (case choices c of
        [] \<Rightarrow> stream_loop slf st cs fin
      | None # _ \<Rightarrow> stream_loop slf st cs fin
      | Some d # _ \<Rightarrow>
          (case on_tool_calls st d of
             Stop \<Rightarrow> (st, [], None)
           | Throw e \<Rightarrow> (st, [], Some e)
           | Go st1 \<Rightarrow>
               (case content d of
                  None \<Rightarrow> stream_loop slf st1 cs fin
                | Some t \<Rightarrow>
                    (let st2 = st1\<lparr>response := resp_add (response st1) t\<rparr>;
                         ev = create_yield_response slf (response st2) ''in-progress'' None;
                         (st3, evs, r) = stream_loop slf st2 cs fin
                     in (st3, ev # evs, r)))))"

section \<open>The tool registry\<close>

text \<open>
  \<open>Tools.functions\<close>: the dict built in \<open>Tools.__init__\<close>, from the tool name to its
  bound method and its \<open>is_sync\<close> flag.
\<close>

datatype tool = action_items | find_content | role_to_skill | prepare_plan

definition tools_functions :: "string \<Rightarrow> (tool \<times> bool) option" where
  "tools_functions =
     map_of
       [(''Action_items'', (action_items, True)),
        (''Find_content'', (find_content, True)),
        (''Role_To_Skill'', (role_to_skill, True)),
        (''Prepare_Plan'', (prepare_plan, False))]"

section \<open>The collaborators of one model pass\<close>

text \<open>
  What the outside world does during one pass through \<open>llm_text_response\<close> (one call
  of \<open>chat.completions.create\<close>): each collaborator either raises or returns.
  \<^item> \<open>store_user_query\<close>, \<open>store_assistant\<close>: the two calls of
    \<open>_store_response_in_redis\<close>, which re-raises what Redis raises;
  \<^item> \<open>prepare_prompt\<close>: \<open>preprocessor.prepare_prompt\<close> and the logging of the
    prompt's token count that follows it, before the stream is opened;
  \<^item> \<open>create\<close>: \<open>chat.completions.create\<close> raises, or returns a stream, given by
    its chunks and by how it ends;
  \<^item> \<open>save_chat_message\<close>: raises or returns the message id;
  \<^item> \<open>count_tokens\<close>: \<open>num_tokens_from_string(response)\<close> in the logging that
    follows the final \<open>yield\<close> of a turn without a tool call; the encoder raises on a
    text that spells one of its special tokens;
  \<^item> \<open>call_tool\<close>: calling the handler with the keyword arguments raises (a
    \<open>TypeError\<close> when they do not fit its signature) or returns a coroutine; awaiting
    the coroutine raises or returns the pair \<open>(tool_response, callback)\<close>;
  \<^item> \<open>store_function_message\<close>: \<open>redis_manager.store_chat\<close> of the function-role
    message.
\<close>

record pass =
  store_user_query :: "exn option"
  prepare_prompt :: "exn option"
  create :: "exn + (chunk list \<times> exn option)"
  store_assistant :: "exn option"
  save_chat_message :: "exn + int"
  count_tokens :: "exn option"
  call_tool :: "tool \<Rightarrow> (string \<times> json) list \<Rightarrow> exn + (exn + (string \<times> bool))"
  store_function_message :: "exn option"

text \<open>The environment of a turn: the client object, \<open>json.loads\<close>, and the passes in
  the order in which the turn makes them.\<close>

record env =
  self :: client
  json_loads :: "string \<Rightarrow> json option"
  world :: "nat \<Rightarrow> pass"

section \<open>Runs of an async generator\<close>

text \<open>
  How a generator stopped: it returned, an exception left it, or the fuel of the model
  ran out before it stopped.
\<close>

datatype outcome = Returned | Raised exn | OutOfFuel

text \<open>
  What a generator did: the events it yielded, in order; how it stopped; the handlers
  scheduled with \<open>asyncio.create_task\<close>; the handlers awaited; the number of calls of
  \<open>chat.completions.create\<close>.
\<close>

record run =
  yields :: "event list"
  ended :: outcome
  tasks :: "(tool \<times> (string \<times> json) list) list"
  awaited :: "(tool \<times> (string \<times> json) list) list"
  llm_calls :: nat

definition finish :: "event list \<Rightarrow> outcome \<Rightarrow> run" where
  "finish evs out = \<lparr> yields = evs, ended = out, tasks = [], awaited = [], llm_calls = 0 \<rparr>"

text \<open>Events yielded, handlers awaited and model calls made before the run \<open>r\<close>.\<close>

definition preceded ::
  "event list \<Rightarrow> (tool \<times> (string \<times> json) list) list \<Rightarrow> nat \<Rightarrow> run \<Rightarrow> run" where
  "preceded evs aw n r =
     r\<lparr> yields := evs @ yields r, awaited := aw @ awaited r, llm_calls := n + llm_calls r \<rparr>"

section \<open>\<open>_handle_function_call\<close>\<close>

text \<open>\<open>json.loads(func_arguments).items()\<close>\<close>

definition json_items :: "json option \<Rightarrow> exn + (string \<times> json) list" where
  "json_items j =
     (case j of
        None \<Rightarrow> Inl JSONDecodeError
      | Some (JObject kvs) \<Rightarrow> Inr kvs
      | Some _ \<Rightarrow> Inl AttributeError)"

text \<open>\<open>{k: v for k, v in json.loads(func_arguments).items() if k != "your_response"}\<close>\<close>

definition parse_arguments :: "env \<Rightarrow> string \<Rightarrow> exn + (string \<times> json) list" where
  "parse_arguments E fargs =
     (case json_items (json_loads E fargs) of
        Inl e \<Rightarrow> Inl e
      | Inr items \<Rightarrow> Inr (filter (\<lambda>(k, v). k \<noteq> ''your_response'') items))"

text \<open>
  \<open>self.tools.functions.get(name)\<close> is \<open>None\<close> for a name that is not registered, and
  \<open>.get("function")\<close> on it raises. A registered \<open>function\<close> is a bound method, so
  \<open>if function:\<close> holds. The \<open>except Exception\<close> clause logs and re-raises. The last
  argument is the run of the recursive call \<open>self.llm_text_response(user_query=None,
  ...)\<close>, used in the \<open>if callback:\<close> branch.
\<close>

definition handle_function_call ::
  "env \<Rightarrow> pass \<Rightarrow> string \<times> string \<Rightarrow> string \<Rightarrow> bool \<Rightarrow> resp \<Rightarrow> run \<Rightarrow> run"
where
  "handle_function_call E p fc fargs async_tools rsp continue =
     (case tools_functions (snd fc) of
        None \<Rightarrow> finish [] (Raised AttributeError)
      | Some (func, is_sync) \<Rightarrow>
          (case parse_arguments E fargs of
             Inl e \<Rightarrow> finish [] (Raised e)
           | Inr arguments \<Rightarrow>
               (if async_tools \<or> \<not> is_sync then
                  (case call_tool p func arguments of
                     Inl e \<Rightarrow> finish [] (Raised e)
                   | Inr coroutine \<Rightarrow>
                       (finish [create_yield_response (self E) rsp ''done'' None] Returned)
                         \<lparr> tasks := [(func, arguments)] \<rparr>)
                else
                  (case call_tool p func arguments of
                     Inl e \<Rightarrow> finish [] (Raised e)
                   | Inr (Inl e) \<Rightarrow>
                       preceded [] [(func, arguments)] 0 (finish [] (Raised e))
                   | Inr (Inr (tool_response, callback)) \<Rightarrow>
                       preceded [] [(func, arguments)] 0
                         (case store_function_message p of
                            Some e \<Rightarrow> finish [] (Raised e)
                          | None \<Rightarrow>
                              if callback then continue
                              else finish [create_yield_response (self E) rsp ''done'' None]
                                     Returned)))))"

section \<open>\<open>llm_text_response\<close>\<close>

definition content_filter_message :: string where
  "content_filter_message =
     ''I'' @ [CHR 0x27] @ ''m sorry, your query hab been filtered by azure content policy. Please try again.''"

text \<open>
  The two \<open>except\<close> clauses of \<open>llm_text_response\<close>, applied to the exception that left
  the \<open>try\<close> body: the events yielded by the clause and how the generator stops.
  \<open>e.body.get\<close> raises when the body is not a dict.
\<close>

definition text_response_except :: "client \<Rightarrow> exn \<Rightarrow> event list \<times> outcome" where
  "text_response_except slf e =
     (case e of
        BadRequestError sc body \<Rightarrow>
          (if sc = 400 then
             (case body of
                None \<Rightarrow> ([], Raised AttributeError)
              | Some b \<Rightarrow>
                  if map_of b ''code'' = Some ''content_filter'' then
                    ([create_yield_response slf
                        (Str (case map_of b ''message'' of
                                Some m \<Rightarrow> m
                              | None \<Rightarrow> content_filter_message))
                        ''done'' None],
                     Returned)
                  else ([], Returned))
           else ([], Returned))
      | _ \<Rightarrow> ([create_yield_response slf (Str ''Error Occurred'') ''done'' None], Returned))"

definition guarded :: "client \<Rightarrow> run \<Rightarrow> run" where
  "guarded slf r =
     (case ended r of
        Raised e \<Rightarrow>
          (case text_response_except slf e of
             (evs, out) \<Rightarrow> r\<lparr> yields := yields r @ evs, ended := out \<rparr>)
      | _ \<Rightarrow> r)"

text \<open>
  The body of the \<open>try\<close> statement of \<open>llm_text_response\<close>, on one pass \<open>p\<close>. The
  last argument is the run of the recursive call that \<open>_handle_function_call\<close> makes
  when the tool asks for a continuation. \<open>session_id\<close> and \<open>correlation_id\<close> are only
  handed on to the tool handler and are left out. In a turn without a tool call the
  token count of the response is logged after the final \<open>yield\<close>, still inside the
  \<open>try\<close>: when that raises, the exception leaves the body after the final event.
\<close>

definition text_response_try :: "env \<Rightarrow> pass \<Rightarrow> string option \<Rightarrow> bool \<Rightarrow> run \<Rightarrow> run" where
  "text_response_try E p user_query async_tools continue =
     (case (if str_truthy user_query then store_user_query p else None) of
        Some e \<Rightarrow> finish [] (Raised e)
      | None \<Rightarrow>
          (case prepare_prompt p of
             Some e \<Rightarrow> finish [] (Raised e)
           | None \<Rightarrow>
               (case create p of
                  Inl e \<Rightarrow> preceded [] [] 1 (finish [] (Raised e))
                | Inr (chunks, fin) \<Rightarrow>
                    (case stream_loop (self E) init_state chunks fin of
                       (st, evs, Some e) \<Rightarrow> preceded evs [] 1 (finish [] (Raised e))
                     | (st, evs, None) \<Rightarrow>
                         preceded evs [] 1
                           (case (if resp_truthy (response st) then store_assistant p
                                  else None) of
                              Some e \<Rightarrow> finish [] (Raised e)
                            | None \<Rightarrow>
                                (case func_call st of
                                   Some fc \<Rightarrow>
                                     handle_function_call E p fc (func_arguments st)
                                       async_tools (normalise (response st)) continue
                                 | None \<Rightarrow>
                                     (case save_chat_message p of
                                        Inl e \<Rightarrow> finish [] (Raised e)
                                      | Inr mid \<Rightarrow>
                                          finish
                                            [create_yield_response (self E)
                                               (normalise (response st)) ''done'' (Some mid)]
                                            (case count_tokens p of
                                               Some e \<Rightarrow> Raised e
                                             | None \<Rightarrow> Returned))))))))"

text \<open>
  The generator \<open>llm_text_response(user_query, session_id, correlation_id,
  async_tools)\<close>: the \<open>try\<close> body under its \<open>except\<close> clauses. The first argument is
  the fuel: the number of passes the model may take, one more than the number of times a
  tool result re-enters generation. The second is the index of the pass. The recursive
  call is \<open>self.llm_text_response(user_query=None, session_id=..., correlation_id=...)\<close>,
  with \<open>async_tools\<close> at its default \<open>False\<close>.
\<close>

fun llm_text_response :: "env \<Rightarrow> nat \<Rightarrow> nat \<Rightarrow> string option \<Rightarrow> bool \<Rightarrow> run" where
  "llm_text_response E 0 k user_query async_tools = finish [] OutOfFuel"
| "llm_text_response E (Suc n) k user_query async_tools =
     guarded (self E)
       (text_response_try E (world E k) user_query async_tools
          (llm_text_response E n (Suc k) None False))"

section \<open>\<open>llm_text_begin_message\<close>\<close>

text \<open>A local variable of a Python function: read before its first assignment, it
  raises \<open>UnboundLocalError\<close>.\<close>

datatype 'a local_var = Unbound | Bound 'a

definition begin_filter_message :: string where
  "begin_filter_message =
     ''I'' @ [CHR 0x27] @ ''m sorry, your query contains inappropriate content. Please try again.''"

text \<open>
  The \<open>async for\<close> loop of \<open>llm_text_begin_message\<close>: it reads
  \<open>chunk.choices[0].delta.content\<close> without a guard, so an empty \<open>choices\<close> and an
  absent \<open>delta\<close> raise.
\<close>

fun begin_loop ::
  "client \<Rightarrow> string \<Rightarrow> chunk list \<Rightarrow> exn option \<Rightarrow> string \<times> event list \<times> exn option"
where
  "begin_loop slf rsp [] fin = (rsp, [], fin)"
| "begin_loop slf rsp (c # cs) fin =
     (case choices c of
        [] \<Rightarrow> (rsp, [], Some IndexError)
      | None # _ \<Rightarrow> (rsp, [], Some AttributeError)
      | Some d # _ \<Rightarrow>
          (case content d of
             None \<Rightarrow> begin_loop slf rsp cs fin
           | Some t \<Rightarrow>
               (let rsp2 = rsp @ t;
                    ev = create_yield_response slf (Str rsp2) ''in-progress'' None;
                    (rsp3, evs, r) = begin_loop slf rsp2 cs fin
                in (rsp3, ev # evs, r))))"

text \<open>
  The two \<open>except\<close> clauses of \<open>llm_text_begin_message\<close>. Both pass
  \<open>message_id=message_id\<close> to \<open>_create_yield_response\<close>; the local \<open>message_id\<close> is
  first assigned by \<open>message_id = await save_chat_message(...)\<close>, after the stream
  has been consumed.
\<close>

definition begin_message_except ::
  "client \<Rightarrow> int local_var \<Rightarrow> exn \<Rightarrow> event list \<times> outcome" where
  "begin_message_except slf message_id_var e =
     (case e of
        BadRequestError sc body \<Rightarrow>
          (if sc = 400 then
             (case body of
                None \<Rightarrow> ([], Raised AttributeError)
              | Some b \<Rightarrow>
                  if map_of b ''code'' = Some ''content_filter'' then
                    (case message_id_var of
                       Unbound \<Rightarrow> ([], Raised (UnboundLocalError ''message_id''))
                     | Bound mid \<Rightarrow>
                         ([create_yield_response slf (Str begin_filter_message) ''done''
                             (Some mid)],
                          Returned))
                  else ([], Returned))
           else ([], Returned))
      | _ \<Rightarrow>
          (case message_id_var of
             Unbound \<Rightarrow> ([], Raised (UnboundLocalError ''message_id''))
           | Bound mid \<Rightarrow>
               ([create_yield_response slf (Str ''Error Occurred'') ''done'' (Some mid)],
                Returned)))"

definition begin_guarded :: "client \<Rightarrow> int local_var \<Rightarrow> event list \<Rightarrow> nat \<Rightarrow> exn \<Rightarrow> run" where
  "begin_guarded slf message_id_var evs n e =
     (case begin_message_except slf message_id_var e of
        (evs', out) \<Rightarrow> preceded evs [] n (finish evs' out))"

text \<open>
  The generator \<open>llm_text_begin_message()\<close>, on pass 0 of the environment. After the
  final \<open>yield\<close> it logs the token count of the response (\<open>count_tokens\<close>) and
  stores the response in Redis (\<open>store_assistant\<close>), still inside the \<open>try\<close>.
\<close>

definition llm_text_begin_message :: "env \<Rightarrow> run" where
  "llm_text_begin_message E =
     (let p = world E 0 in
      case prepare_prompt p of
        Some e \<Rightarrow> begin_guarded (self E) Unbound [] 0 e
      | None \<Rightarrow>
          (case create p of
             Inl e \<Rightarrow> begin_guarded (self E) Unbound [] 1 e
           | Inr (chunks, fin) \<Rightarrow>
               (case begin_loop (self E) [] chunks fin of
                  (rsp, evs, Some e) \<Rightarrow> begin_guarded (self E) Unbound evs 1 e
                | (rsp, evs, None) \<Rightarrow>
                    (case save_chat_message p of
                       Inl e \<Rightarrow> begin_guarded (self E) Unbound evs 1 e
                     | Inr mid \<Rightarrow>
                         (let final_event = create_yield_response (self E) (Str rsp) ''done'' (Some mid)
                          in case count_tokens p of
                               Some e \<Rightarrow> begin_guarded (self E) (Bound mid) (evs @ [final_event]) 1 e
                             | None \<Rightarrow>
                                 (case store_assistant p of
                                    Some e \<Rightarrow>
                                      begin_guarded (self E) (Bound mid) (evs @ [final_event]) 1 e
                                  | None \<Rightarrow>
                                      preceded (evs @ [final_event]) [] 1 (finish [] Returned)))))))"

section \<open>The delivery channel and its producers and consumer\<close>

text \<open>An item of the \<open>asyncio.Queue\<close>: the string \<open>"ping-pong"\<close> or a serialised
  message.\<close>

datatype qitem = PingPong | Message event

text \<open>\<open>message["session_id"] = session_id; message["correlation_id"] = ...;
  await queue.put(json.dumps(message))\<close>\<close>

definition put_message :: "string \<Rightarrow> string \<Rightarrow> event \<Rightarrow> qitem" where
  "put_message sid cid m = Message (m\<lparr> session_id := Some sid, correlation_id := Some cid \<rparr>)"

text \<open>\<open>_enqueue_begin_messages\<close>: every message of the generator is put on the queue;
  an exception of the generator ends the task.\<close>

definition enqueue_begin_messages ::
  "string \<Rightarrow> string \<Rightarrow> run \<Rightarrow> qitem list \<Rightarrow> qitem list \<times> outcome" where
  "enqueue_begin_messages sid cid message_generator q =
     (q @ map (put_message sid cid) (yields message_generator), ended message_generator)"

text \<open>
  \<open>_enqueue_chat_messages\<close>. Each round of its \<open>while True\<close> loop polls
  \<open>request.is_disconnected()\<close> and, when the session has a prompt, runs the generator
  \<open>llm_text_response\<close> and puts its messages on the queue. A round is given by the
  answer of the poll and by the environment the generator meets; when the rounds given
  are used up the loop is still running.
\<close>

fun enqueue_chat_messages ::
  "string option \<Rightarrow> string \<Rightarrow> string \<Rightarrow> nat \<Rightarrow> (bool \<times> env) list \<Rightarrow> qitem list
     \<Rightarrow> qitem list \<times> outcome"
where
  "enqueue_chat_messages user_query sid cid fuel [] q = (q, OutOfFuel)"
| "enqueue_chat_messages user_query sid cid fuel ((is_disconnected, E) # rounds) q =
     (if is_disconnected then (q, Returned)
      else if str_truthy user_query then
        (let r = llm_text_response E fuel 0 user_query False;
             q' = q @ map (put_message sid cid) (yields r)
         in case ended r of
              Returned \<Rightarrow> enqueue_chat_messages user_query sid cid fuel rounds q'
            | out \<Rightarrow> (q', out))
      else enqueue_chat_messages user_query sid cid fuel rounds q)"

text \<open>\<open>"ping-pong" in message\<close> holds for the heartbeat string and for no message
  dict; otherwise the loop reads \<open>message['is_final']\<close>.\<close>

fun item_final :: "qitem \<Rightarrow> bool" where
  "item_final PingPong = False"
| "item_final (Message m) = is_final m"

text \<open>
  The consumer loop of \<open>event_generator\<close> over the items that arrive on the queue, in
  order: the items it forwards to the client, and whether it has set \<open>stop_event\<close> and
  left the loop. On an exhausted queue it waits.
\<close>

fun event_generator :: "qitem list \<Rightarrow> qitem list \<times> bool" where
  "event_generator [] = ([], False)"
| "event_generator (x # q) =
     (if item_final x then ([x], True)
      else (case event_generator q of (out, stopped) \<Rightarrow> (x # out, stopped)))"

section \<open>The keepalive emitter\<close>

text \<open>
  \<open>send_ping_pong_messages\<close> on a logical clock counted in seconds: \<open>is_set t\<close> tells
  whether \<open>stop_event\<close> is set at time \<open>t\<close>, and \<open>asyncio.sleep(5)\<close> advances the clock
  by 5. The first argument bounds the number of rounds of the \<open>while\<close> loop. The result
  is the list of the times at which \<open>"ping-pong"\<close> was put on the queue, and the time at
  which the loop was left (\<open>None\<close> when it is still running).
\<close>

definition ping_interval :: nat where
  "ping_interval = 5"

fun send_ping_pong_messages :: "(nat \<Rightarrow> bool) \<Rightarrow> nat \<Rightarrow> nat \<Rightarrow> nat list \<times> nat option" where
  "send_ping_pong_messages is_set 0 t = ([], None)"
| "send_ping_pong_messages is_set (Suc n) t =
     (if is_set t then ([], Some t)
      else
        (let t' = t + ping_interval in
         case send_ping_pong_messages is_set n t' of
           (pings, left) \<Rightarrow> (if \<not> is_set t' then t' # pings else pings, left)))"

section \<open>Notions used in the statements\<close>

text \<open>A tool-call-start fragment: its first tool call carries an id.\<close>

definition is_tool_start :: "chunk \<Rightarrow> bool" where
  "is_tool_start c =
     (case choices c of
        Some d # _ \<Rightarrow>
          (case tool_calls d of
             Some (tc # _) \<Rightarrow> str_truthy (tc_id tc)
           | _ \<Rightarrow> False)
      | _ \<Rightarrow> False)"

text \<open>An argument-delta fragment with the argument text \<open>a\<close>: its first tool call
  carries no id.\<close>

definition is_arg_delta :: "chunk \<Rightarrow> string \<Rightarrow> bool" where
  "is_arg_delta c a =
     (case choices c of
        Some d # _ \<Rightarrow>
          (case tool_calls d of
             Some (tc # _) \<Rightarrow>
               \<not> str_truthy (tc_id tc) \<and>
               (case tc_function tc of
                  Some f \<Rightarrow> or_empty (fn_arguments f) = a
                | None \<Rightarrow> False)
           | _ \<Rightarrow> False)
      | _ \<Rightarrow> False)"

text \<open>
  The pass gets through the model stream: nothing raises before or in the stream, or in
  storing the response. The value is the locals after the loop and the in-progress events
  yielded in it.
\<close>

definition streamed :: "client \<Rightarrow> pass \<Rightarrow> string option \<Rightarrow> (loop_state \<times> event list) option" where
  "streamed slf p user_query =
     (if (str_truthy user_query \<and> store_user_query p \<noteq> None) \<or> prepare_prompt p \<noteq> None
      then None
      else
        (case create p of
           Inl e \<Rightarrow> None
         | Inr (chunks, fin) \<Rightarrow>
             (case stream_loop slf init_state chunks fin of
                (st, evs, Some e) \<Rightarrow> None
              | (st, evs, None) \<Rightarrow>
                  if resp_truthy (response st) \<and> store_assistant p \<noteq> None then None
                  else Some (st, evs))))"

text \<open>The pass fails while the stream is opened or consumed: the in-progress events
  yielded before, and the exception.\<close>

definition stream_raises :: "client \<Rightarrow> pass \<Rightarrow> string option \<Rightarrow> (event list \<times> exn) option" where
  "stream_raises slf p user_query =
     (if (str_truthy user_query \<and> store_user_query p \<noteq> None) \<or> prepare_prompt p \<noteq> None
      then None
      else
        (case create p of
           Inl e \<Rightarrow> Some ([], e)
         | Inr (chunks, fin) \<Rightarrow>
             (case stream_loop slf init_state chunks fin of
                (st, evs, Some e) \<Rightarrow> Some (evs, e)
              | (st, evs, None) \<Rightarrow> None)))"

text \<open>No event of the list is final.\<close>

definition nonfinal :: "event list \<Rightarrow> bool" where
  "nonfinal evs = list_all (\<lambda>e. \<not> is_final e) evs"

text \<open>A run has at most one final event, it is the last event of the run, and a run
  that did not return has none.\<close>

definition well_ended :: "run \<Rightarrow> bool" where
  "well_ended r =
     (nonfinal (butlast (yields r)) \<and> (ended r = Returned \<or> nonfinal (yields r)))"


text \<open>The logging of the token count after the final \<open>yield\<close> raises in none of the
  first \<open>n\<close> passes of the environment.\<close>

definition logging_safe :: "env \<Rightarrow> nat \<Rightarrow> bool" where
  "logging_safe E n = list_all (\<lambda>k. count_tokens (world E k) = None) [0..<n]"

text \<open>
  The runs of \<open>llm_text_response\<close> that the loop of \<open>_enqueue_chat_messages\<close> makes over
  the given rounds: one for each round in which the client is still connected, up to the
  first run that does not return.
\<close>

fun chat_runs :: "string option \<Rightarrow> nat \<Rightarrow> (bool \<times> env) list \<Rightarrow> run list" where
  "chat_runs user_query fuel [] = []"
| "chat_runs user_query fuel ((is_disconnected, E) # rounds) =
     (if is_disconnected then []
      else if str_truthy user_query then
        (let r = llm_text_response E fuel 0 user_query False
         in r # (if ended r = Returned then chat_runs user_query fuel rounds else []))
      else chat_runs user_query fuel rounds)"





section \<open>Example turns\<close>

definition a_client :: client where
  "a_client = \<lparr> self_coach_id = ''coach-1'', self_user_id = ''user-1'' \<rparr>"

text \<open>A chunk with a text delta, a tool-call-start chunk (it carries an id and the tool
  name) and an argument-delta chunk (no id, a piece of the argument text).\<close>

definition text_chunk :: "string \<Rightarrow> chunk" where
  "text_chunk t = Chunk [Some (Delta None (Some t))]"

definition tool_start :: "string \<Rightarrow> string \<Rightarrow> chunk" where
  "tool_start i name =
     Chunk [Some (Delta (Some [ToolCallDelta (Some i) (Some (FunctionDelta (Some name) (Some [])))])
                    None)]"

definition arg_fragment :: "string \<Rightarrow> chunk" where
  "arg_fragment a =
     Chunk [Some (Delta (Some [ToolCallDelta None (Some (FunctionDelta None (Some a)))]) None)]"

text \<open>A pass in which no collaborator raises, the model streams nothing, and a tool
  handler returns \<open>("Title: ...", False)\<close>.\<close>

definition quiet_pass :: pass where
  "quiet_pass =
     \<lparr> store_user_query = None,
       prepare_prompt = None,
       create = Inr ([], None),
       store_assistant = None,
       save_chat_message = Inr 7,
       count_tokens = None,
       call_tool = (\<lambda>t a. Inr (Inr (''Title: ...'', False))),
       store_function_message = None \<rparr>"

text \<open>The model rejects the begin message through the content filter.\<close>

definition begin_rejected :: env where
  "begin_rejected =
     \<lparr> self = a_client,
       json_loads = (\<lambda>s. None),
       world = (\<lambda>k. quiet_pass
                  \<lparr> create := Inl (BadRequestError 400 (Some [(''code'', ''content_filter'')])) \<rparr>) \<rparr>"

text \<open>The argument texts of the examples, and \<open>json.loads\<close> on them: it parses
  the complete texts and raises on every text that is not one of them (below it is
  only applied to these and to a proper prefix of the first, which is not JSON).\<close>

definition quoted :: "string \<Rightarrow> string" where
  "quoted s = dquote # s @ [dquote]"

definition find_args :: string where
  "find_args =
     ''{'' @ quoted ''search_word'' @ '':'' @ quoted ''excel'' @ '','' @
     quoted ''your_response'' @ '':'' @ quoted ''Sure, let me look'' @ ''}''"

text \<open>The argument text of a call of \<open>Prepare_Plan\<close> whose \<open>your_response\<close> is written
  as the given text between its quotes, and the object that \<open>json.loads\<close> makes of it
  when that text decodes to the given string.\<close>

definition plan_args_with :: "string \<Rightarrow> string" where
  "plan_args_with written =
     ''{'' @ quoted ''plan_title'' @ '':'' @ quoted ''Excel'' @ '','' @
     quoted ''plan_description'' @ '':'' @ quoted ''Basics'' @ '','' @
     quoted ''plan_duration'' @ '':30,'' @
     quoted ''skills_to_learn'' @ '':['' @ quoted ''Excel'' @ ''],'' @
     quoted ''skills_to_upgrade'' @ '':[],'' @
     quoted ''your_response'' @ '':'' @ quoted written @ ''}''"

definition plan_object :: "string \<Rightarrow> json" where
  "plan_object decoded =
     JObject [(''plan_title'', JString ''Excel''),
              (''plan_description'', JString ''Basics''),
              (''plan_duration'', JNumber 30),
              (''skills_to_learn'', JArray [JString ''Excel'']),
              (''skills_to_upgrade'', JArray []),
              (''your_response'', JString decoded)]"

definition plan_args :: string where
  "plan_args = plan_args_with ''Sure, preparing your plan''"

text \<open>An aside with an escaped quote: the text as it is written in the arguments, and
  the string it decodes to.\<close>

definition backslash :: char where
  "backslash = CHR 0x5C"

definition escaped_aside_written :: string where
  "escaped_aside_written =
     ''He said '' @ [backslash, dquote] @ ''wait'' @ [backslash, dquote] @ '' ok''"

definition escaped_aside :: string where
  "escaped_aside = ''He said '' @ [dquote] @ ''wait'' @ [dquote] @ '' ok''"

definition escaped_plan_args :: string where
  "escaped_plan_args = plan_args_with escaped_aside_written"

definition loads_example :: "string \<Rightarrow> json option" where
  "loads_example s =
     (if s = find_args then
        Some (JObject [(''search_word'', JString ''excel''),
                       (''your_response'', JString ''Sure, let me look'')])
      else if s = plan_args then Some (plan_object ''Sure, preparing your plan'')
      else if s = escaped_plan_args then Some (plan_object escaped_aside)
      else None)"

definition turn_with :: "chunk list \<Rightarrow> env" where
  "turn_with chunks =
     \<lparr> self = a_client,
       json_loads = loads_example,
       world = (\<lambda>k. quiet_pass \<lparr> create := Inr (chunks, None) \<rparr>) \<rparr>"

text \<open>Scenario A: the model emits two text deltas.\<close>

definition text_turn :: env where
  "text_turn = turn_with [text_chunk ''Hello'', text_chunk '' there'']"

text \<open>Scenario B: the model calls the synchronous tool \<open>Find_content\<close>, its arguments
  split over three fragments; the handler returns \<open>("Title: ...", False)\<close>.\<close>

definition sync_tool_turn :: env where
  "sync_tool_turn =
     turn_with
       [tool_start ''call_1'' ''Find_content'',
        arg_fragment (take 14 find_args),
        arg_fragment (take 20 (drop 14 find_args)),
        arg_fragment (drop 34 find_args)]"

text \<open>The model calls a tool that is not registered.\<close>

definition unknown_tool_turn :: env where
  "unknown_tool_turn = turn_with [text_chunk ''Hi'', tool_start ''call_1'' ''Weather'']"

text \<open>The stream ends in the middle of the argument text.\<close>

definition malformed_args_turn :: env where
  "malformed_args_turn =
     turn_with
       [text_chunk ''Hi'', tool_start ''call_1'' ''Find_content'',
        arg_fragment (take 14 find_args)]"

text \<open>The model rejects the turn through the content filter, with a message in the
  error payload.\<close>

definition filtered_turn :: env where
  "filtered_turn =
     \<lparr> self = a_client,
       json_loads = loads_example,
       world = (\<lambda>k. quiet_pass
                  \<lparr> create := Inl (BadRequestError 400
                                     (Some [(''code'', ''content_filter''),
                                            (''message'', ''The response was filtered'')])) \<rparr>) \<rparr>"


text \<open>The model starts a second tool call in the same stream.\<close>

definition two_starts_turn :: env where
  "two_starts_turn =
     turn_with
       [tool_start ''call_1'' ''Find_content'',
        arg_fragment find_args,
        tool_start ''call_2'' ''Prepare_Plan'',
        arg_fragment plan_args,
        text_chunk ''ignored'']"


text \<open>The model emits two text deltas, the second of which spells a special token of
  the encoder, so that the token count of the logging raises.\<close>

definition logging_fails_turn :: env where
  "logging_fails_turn =
     \<lparr> self = a_client,
       json_loads = loads_example,
       world = (\<lambda>k. quiet_pass
                  \<lparr> create := Inr ([text_chunk ''Hello '', text_chunk ''<|endoftext|>''], None),
                    count_tokens := Some (OtherException ''ValueError'') \<rparr>) \<rparr>"


text \<open>The locals of \<open>llm_text_response\<close> after the stream of the examples, and the
  in-progress event of the examples that start with the text \<open>Hi\<close>.\<close>

definition find_locals :: loop_state where
  "find_locals =
     \<lparr> func_call = Some (''call_1'', ''Find_content''),
       func_arguments = find_args,
       response = StrList [''Sure, let me look''] \<rparr>"


definition unknown_locals :: loop_state where
  "unknown_locals =
     \<lparr> func_call = Some (''call_1'', ''Weather''), func_arguments = [], response = Str ''Hi'' \<rparr>"

definition malformed_locals :: loop_state where
  "malformed_locals =
     \<lparr> func_call = Some (''call_1'', ''Find_content''),
       func_arguments = take 14 find_args,
       response = Str ''Hi'' \<rparr>"

definition hi_event :: event where
  "hi_event = create_yield_response a_client (Str ''Hi'') ''in-progress'' None"

section \<open>The keepalive emitter stops with the stop signal\<close>

lemma upt_shift:
  "map f [Suc 0..<Suc (Suc n)] = f (Suc 0) # map (\<lambda>i. f (Suc i)) [Suc 0..<Suc n]"
proof -
  have "[Suc 0..<Suc (Suc n)] = Suc 0 # map Suc [Suc 0..<Suc n]"
    by (metis map_Suc_upt upt_conv_Cons zero_less_Suc Suc_less_eq)
  then show ?thesis by (simp add: comp_def)
qed

lemma ping_times:
  "send_ping_pong_messages (\<lambda>t. s \<le> t) n t0 = (pings, left) \<Longrightarrow>
   pings = filter (\<lambda>p. p < s) (map (\<lambda>i. t0 + ping_interval * i) [Suc 0..<Suc n])"
proof (induction n arbitrary: t0 pings left)
  case 0
  then show ?case by simp
next
  case (Suc n)
  show ?case
  proof (cases "s \<le> t0")
    case True
    with Suc.prems have "pings = []" by simp
    moreover from True
    have "filter (\<lambda>p. p < s) (map (\<lambda>i. t0 + ping_interval * i) [Suc 0..<Suc (Suc n)]) = []"
      by (auto simp: filter_empty_conv)
    ultimately show ?thesis by simp
  next
    case False
    obtain ps l where rec: "send_ping_pong_messages (\<lambda>t. s \<le> t) n (t0 + ping_interval) = (ps, l)"
      by (cases "send_ping_pong_messages (\<lambda>t. s \<le> t) n (t0 + ping_interval)") auto
    from Suc.IH[OF rec]
    have ps: "ps = filter (\<lambda>p. p < s)
                     (map (\<lambda>i. t0 + ping_interval + ping_interval * i) [Suc 0..<Suc n])" .
    from False rec Suc.prems
    have "pings = (if \<not> s \<le> t0 + ping_interval then (t0 + ping_interval) # ps else ps)"
      by (simp add: Let_def)
    then show ?thesis
      unfolding upt_shift ps by (auto simp: algebra_simps)
  qed
qed

lemma ping_left:
  "send_ping_pong_messages (\<lambda>t. s \<le> t) n t0 = (pings, Some e) \<Longrightarrow>
   s \<le> e \<and> (e = t0 \<or> e < s + ping_interval)"
proof (induction n arbitrary: t0 pings)
  case 0
  then show ?case by simp
next
  case (Suc n)
  show ?case
  proof (cases "s \<le> t0")
    case True
    with Suc.prems show ?thesis by simp
  next
    case False
    obtain ps l where rec: "send_ping_pong_messages (\<lambda>t. s \<le> t) n (t0 + ping_interval) = (ps, l)"
      by (cases "send_ping_pong_messages (\<lambda>t. s \<le> t) n (t0 + ping_interval)") auto
    with False Suc.prems have l: "l = Some e" by (simp add: Let_def)
    from Suc.IH[OF rec[unfolded l]] False show ?thesis by auto
  qed
qed

lemma ping_exits:
  "s \<le> t0 + ping_interval * m \<Longrightarrow> m < n \<Longrightarrow>
   snd (send_ping_pong_messages (\<lambda>t. s \<le> t) n t0) \<noteq> None"
proof (induction n arbitrary: t0 m)
  case 0
  then show ?case by simp
next
  case (Suc n)
  show ?case
  proof (cases "s \<le> t0")
    case True
    then show ?thesis by simp
  next
    case False
    with Suc.prems obtain m' where m: "m = Suc m'" by (cases m) auto
    with Suc.prems have "s \<le> (t0 + ping_interval) + ping_interval * m'" "m' < n"
      by (auto simp: algebra_simps)
    from Suc.IH[OF this]
    obtain ps e where
      "send_ping_pong_messages (\<lambda>t. s \<le> t) n (t0 + ping_interval) = (ps, Some e)"
      by (cases "send_ping_pong_messages (\<lambda>t. s \<le> t) n (t0 + ping_interval)") auto
    with False show ?thesis
      by (simp add: Let_def)
  qed
qed

text \<open>
  Claim C8. The stop signal is set from time \<open>s\<close> on and the emitter starts at time
  \<open>t0\<close>. Then it puts one heartbeat on the queue at the end of every 5-second
  interval that ends before \<open>s\<close>, and no other: none at or after \<open>s\<close>. When it leaves
  its loop, the signal is set and less than one interval has passed since it was set
  (or the signal was already set at the start). It does leave the loop once a check falls
  at or after \<open>s\<close>.
\<close>

theorem keepalive_until_stop:
  assumes "send_ping_pong_messages (\<lambda>t. s \<le> t) n t0 = (pings, left)"
  shows "pings = filter (\<lambda>p. p < s) (map (\<lambda>i. t0 + ping_interval * i) [Suc 0..<Suc n])
       \<and> (\<forall>e. left = Some e \<longrightarrow> s \<le> e \<and> (e = t0 \<or> e < s + ping_interval))
       \<and> (\<forall>m. s \<le> t0 + ping_interval * m \<and> m < n \<longrightarrow> left \<noteq> None)"
proof -
  have times: "pings = filter (\<lambda>p. p < s) (map (\<lambda>i. t0 + ping_interval * i) [Suc 0..<Suc n])"
    using assms by (rule ping_times)
  have leaves: "s \<le> e \<and> (e = t0 \<or> e < s + ping_interval)" if "left = Some e" for e
    using assms that ping_left by blast
  have exits: "left \<noteq> None" if "s \<le> t0 + ping_interval * m \<and> m < n" for m
  proof -
    from that have "snd (send_ping_pong_messages (\<lambda>t. s \<le> t) n t0) \<noteq> None"
      using ping_exits by blast
    with assms show ?thesis by simp
  qed
  from times leaves exits show ?thesis by blast
qed

theorem keepalive_until_stop_witness:
  "send_ping_pong_messages (\<lambda>t. 12 \<le> t) 10 0 = ([5, 10], Some 15)
   \<and> [5, 10] = filter (\<lambda>p. p < 12) (map (\<lambda>i. 0 + ping_interval * i) [Suc 0..<Suc 10])
   \<and> (12::nat) \<le> 15 \<and> (15::nat) < 12 + ping_interval"
proof -
  have run: "send_ping_pong_messages (\<lambda>t. 12 \<le> t) 10 0 = ([5, 10], Some 15)"
    by code_simp
  from keepalive_until_stop[OF run] run show ?thesis
    by (simp add: ping_interval_def)
qed

section \<open>The begin message and its failure paths\<close>

text \<open>
  Claim C1, at a turn that breaks it. The model rejects the begin message through the
  content filter before \<open>message_id\<close> is assigned: the \<open>except\<close> clause raises
  \<open>UnboundLocalError\<close> instead of yielding the terminal event, the enqueue task ends with
  that exception, and the consumer is left waiting without a final event and without
  setting the stop signal.
\<close>

theorem begin_message_filter_loses_final:
  "llm_text_begin_message begin_rejected =
     \<lparr> yields = [], ended = Raised (UnboundLocalError ''message_id''), tasks = [],
       awaited = [], llm_calls = 1 \<rparr>
   \<and> enqueue_begin_messages ''session-1'' ''corr-1'' (llm_text_begin_message begin_rejected) []
       = ([], Raised (UnboundLocalError ''message_id''))
   \<and> event_generator
        (fst (enqueue_begin_messages ''session-1'' ''corr-1''
                (llm_text_begin_message begin_rejected) []))
       = ([], False)"
  by code_simp

section \<open>Properties of the stream loop\<close>

lemma stream_loop_nonfinal:
  "stream_loop slf st cs fin = (st', evs, r) \<Longrightarrow> nonfinal evs"
proof (induction cs arbitrary: st st' evs r)
  case Nil
  then show ?case by (simp add: nonfinal_def)
next
  case (Cons c cs)
  then show ?case
    by (auto simp: nonfinal_def create_yield_response_def Let_def
        split: list.splits option.splits flow.splits prod.splits)
qed

lemma second_start_stops:
  "is_tool_start c \<Longrightarrow> func_call st \<noteq> None \<Longrightarrow> stream_loop slf st (c # ys) fin = (st, [], None)"
  by (auto simp: is_tool_start_def on_tool_calls_def on_tool_call_def
      split: list.splits option.splits)

lemma on_tool_calls_func_call:
  "on_tool_calls st d = Go st' \<Longrightarrow> func_call st \<noteq> None \<Longrightarrow> func_call st' = func_call st"
  by (auto simp: on_tool_calls_def on_tool_call_def Let_def
      split: list.splits option.splits if_splits)

lemma stream_loop_cut:
  "stream_loop slf st0 xs None = (st, evs, None) \<Longrightarrow> func_call st \<noteq> None \<Longrightarrow>
   is_tool_start c \<Longrightarrow> stream_loop slf st0 (xs @ c # ys) fin = (st, evs, None)"
proof (induction xs arbitrary: st0 evs)
  case Nil
  then show ?case using second_start_stops by simp
next
  case (Cons x xs)
  show ?case
  proof (cases "choices x")
    case Nil
    with Cons show ?thesis by simp
  next
    case (Cons ch rest)
    note ch = this
    show ?thesis
    proof (cases ch)
      case None
      with ch Cons.prems Cons.IH show ?thesis by simp
    next
      case (Some d)
      show ?thesis
      proof (cases "on_tool_calls st0 d")
        case Stop
        with ch Some Cons.prems show ?thesis by simp
      next
        case (Throw e)
        with ch Some Cons.prems show ?thesis by simp
      next
        case (Go st1)
        show ?thesis
        proof (cases "content d")
          case None
          with Go ch Some Cons.prems Cons.IH show ?thesis by simp
        next
          case (Some t)
          let ?st2 = "st1\<lparr>response := resp_add (response st1) t\<rparr>"
          obtain s3 e3 r3 where rec: "stream_loop slf ?st2 xs None = (s3, e3, r3)"
            by (cases "stream_loop slf ?st2 xs None") auto
          with Go ch \<open>ch = Some d\<close> Some Cons.prems
          have eq: "s3 = st" "r3 = None" "evs = create_yield_response slf (response ?st2) ''in-progress'' None # e3"
            by (auto simp: Let_def)
          from Cons.IH[OF rec[unfolded eq(1,2)] Cons.prems(2,3)]
          show ?thesis using Go ch \<open>ch = Some d\<close> Some eq by (simp add: Let_def)
        qed
      qed
    qed
  qed
qed

lemma is_arg_deltaE:
  assumes "is_arg_delta c a"
  obtains d rest tc trest f where
    "choices c = Some d # rest" "tool_calls d = Some (tc # trest)" "\<not> str_truthy (tc_id tc)"
    "tc_function tc = Some f" "or_empty (fn_arguments f) = a"
proof (cases "choices c")
  case Nil
  with assms show ?thesis by (simp add: is_arg_delta_def)
next
  case (Cons ch rest)
  show ?thesis
  proof (cases ch)
    case None
    with Cons assms show ?thesis by (simp add: is_arg_delta_def)
  next
    case (Some d)
    show ?thesis
    proof (cases "tool_calls d")
      case None
      with Cons Some assms show ?thesis by (simp add: is_arg_delta_def)
    next
      case tcs: (Some l)
      show ?thesis
      proof (cases l)
        case Nil
        with Cons Some tcs assms show ?thesis by (simp add: is_arg_delta_def)
      next
        case lc: (Cons tc trest)
        show ?thesis
        proof (cases "tc_function tc")
          case None
          with Cons Some tcs lc assms show ?thesis by (simp add: is_arg_delta_def)
        next
          case f: (Some f)
          with Cons Some tcs lc assms that show ?thesis by (simp add: is_arg_delta_def)
        qed
      qed
    qed
  qed
qed

lemma arg_delta_step:
  "is_arg_delta c a \<Longrightarrow> stream_loop slf st [c] fin = (st', evs, r) \<Longrightarrow>
   func_arguments st' = func_arguments st @ a"
  by (auto simp: is_arg_delta_def on_tool_calls_def on_tool_call_def Let_def
      split: list.splits option.splits prod.splits if_splits)

lemma arg_deltas_accumulate:
  "list_all2 is_arg_delta cs frags \<Longrightarrow>
   func_arguments (fst (stream_loop slf st cs fin)) = func_arguments st @ concat frags"
proof (induction cs frags arbitrary: st rule: list_all2_induct)
  case Nil
  then show ?case by simp
next
  case (Cons c cs a frags)
  from Cons.hyps(1) obtain d rest tc trest f where
    c: "choices c = Some d # rest" "tool_calls d = Some (tc # trest)" "\<not> str_truthy (tc_id tc)"
       "tc_function tc = Some f" "or_empty (fn_arguments f) = a"
    by (rule is_arg_deltaE)
  define fa where "fa = func_arguments st @ a"
  define st1 where "st1 = st\<lparr>func_arguments := fa,
      response := (if findall_your_response fa \<noteq> [] then StrList (findall_your_response fa) else response st)\<rparr>"
  have go: "on_tool_calls st d = Go st1"
    using c by (simp add: on_tool_calls_def on_tool_call_def Let_def st1_def fa_def)
  have fa1: "func_arguments st1 = func_arguments st @ a" by (simp add: st1_def fa_def)
  show ?case
  proof (cases "content d")
    case None
    with c go have "stream_loop slf st (c # cs) fin = stream_loop slf st1 cs fin" by simp
    with Cons.IH[of st1] fa1 show ?thesis by simp
  next
    case (Some t)
    let ?st2 = "st1\<lparr>response := resp_add (response st1) t\<rparr>"
    from Some c go have "fst (stream_loop slf st (c # cs) fin) = fst (stream_loop slf ?st2 cs fin)"
      by (simp add: Let_def split: prod.splits)
    with Cons.IH[of ?st2] fa1 show ?thesis by simp
  qed
qed







lemma guarded_returned: "ended r = Returned \<Longrightarrow> guarded slf r = r"
  by (simp add: guarded_def)

lemma guarded_error:
  "ended r = Raised e \<Longrightarrow> e \<in> {AttributeError, TypeError, IndexError, JSONDecodeError} \<Longrightarrow>
   guarded slf r =
     r\<lparr> yields := yields r @ [create_yield_response slf (Str ''Error Occurred'') ''done'' None],
        ended := Returned \<rparr>"
  by (auto simp: guarded_def text_response_except_def)

section \<open>Properties of the turn\<close>

lemma try_streamed:
  assumes "streamed (self E) p uq = Some (st, evs)"
  shows "text_response_try E p uq at cont =
     preceded evs [] 1
       (case func_call st of
          Some fc \<Rightarrow>
            handle_function_call E p fc (func_arguments st) at (normalise (response st)) cont
        | None \<Rightarrow>
            (case save_chat_message p of
               Inl e \<Rightarrow> finish [] (Raised e)
             | Inr mid \<Rightarrow>
                 finish [create_yield_response (self E) (normalise (response st)) ''done''
                           (Some mid)]
                   (case count_tokens p of Some e \<Rightarrow> Raised e | None \<Rightarrow> Returned)))"
proof -
  from assms have a: "(if str_truthy uq then store_user_query p else None) = None"
    and b: "prepare_prompt p = None"
    by (auto simp: streamed_def split: if_splits)
  from assms b a obtain chunks fin where c: "create p = Inr (chunks, fin)"
    by (cases "create p") (auto simp: streamed_def split: if_splits)
  from assms a b c have d: "stream_loop (self E) init_state chunks fin = (st, evs, None)"
    and e: "(if resp_truthy (response st) then store_assistant p else None) = None"
    by (auto simp: streamed_def split: if_splits prod.splits option.splits)
  show ?thesis
    unfolding text_response_try_def by (simp add: a b c d e)
qed

lemma nonfinal_simps [simp]:
  "nonfinal []" "nonfinal (e # es) = (\<not> is_final e \<and> nonfinal es)"
  "nonfinal (xs @ ys) = (nonfinal xs \<and> nonfinal ys)"
  by (auto simp: nonfinal_def)

lemma nonfinal_butlast: "nonfinal xs \<Longrightarrow> nonfinal (butlast xs)"
  by (induction xs) auto

lemma well_ended_finish_nil [simp]: "well_ended (finish [] out)"
  by (simp add: well_ended_def finish_def)

lemma well_ended_finish_one [simp]: "well_ended (finish [e] Returned)"
  by (simp add: well_ended_def finish_def)

lemma well_ended_preceded:
  "nonfinal evs \<Longrightarrow> well_ended r \<Longrightarrow> well_ended (preceded evs aw n r)"
  by (auto simp: well_ended_def preceded_def butlast_append nonfinal_butlast)

lemma well_ended_tasks [simp]: "well_ended (r\<lparr>tasks := ts\<rparr>) = well_ended r"
  by (simp add: well_ended_def)

lemma well_ended_handle:
  "well_ended cont \<Longrightarrow> well_ended (handle_function_call E p fc fargs at rsp cont)"
  unfolding handle_function_call_def
  by (auto split: option.splits sum.splits prod.splits intro!: well_ended_preceded)

lemma well_ended_try:
  assumes "well_ended cont" and "count_tokens p = None"
  shows "well_ended (text_response_try E p uq at cont)"
proof -
  have sl: "nonfinal evs" if "stream_loop (self E) init_state chunks fin = (st, evs, r)"
    for chunks fin st evs r using that by (rule stream_loop_nonfinal)
  show ?thesis
    unfolding text_response_try_def
    by (auto simp: assms(2) split: option.splits sum.splits prod.splits
        intro!: well_ended_preceded well_ended_handle assms(1) dest: sl)
qed

lemma well_ended_guarded:
  "well_ended r \<Longrightarrow> well_ended (guarded slf r)"
  by (auto simp: guarded_def well_ended_def text_response_except_def butlast_append
      nonfinal_butlast
      split: outcome.splits exn.splits option.splits if_splits)

lemma well_ended_llm_text_response:
  assumes "\<forall>i<n. count_tokens (world E (k + i)) = None"
  shows "well_ended (llm_text_response E n k uq at)"
  using assms
proof (induction n arbitrary: k uq at)
  case 0
  show ?case by simp
next
  case (Suc n)
  from Suc.prems have "count_tokens (world E (k + 0)) = None" by blast
  then have here: "count_tokens (world E k) = None" by simp
  have "count_tokens (world E (Suc k + i)) = None" if "i < n" for i
  proof -
    from that have "Suc i < Suc n" by simp
    with Suc.prems have "count_tokens (world E (k + Suc i)) = None" by blast
    then show ?thesis by simp
  qed
  then have "well_ended (llm_text_response E n (Suc k) None False)"
    by (simp add: Suc.IH)
  with here show ?case
    by (simp add: well_ended_guarded well_ended_try)
qed

lemma try_raises:
  assumes "stream_raises (self E) p uq = Some (evs, e)"
  shows "text_response_try E p uq at cont = preceded evs [] 1 (finish [] (Raised e))"
proof -
  from assms have a: "(if str_truthy uq then store_user_query p else None) = None"
    and b: "prepare_prompt p = None"
    by (auto simp: stream_raises_def split: if_splits)
  show ?thesis
  proof (cases "create p")
    case (Inl x)
    with assms a b have "evs = []" "x = e" by (auto simp: stream_raises_def split: if_splits)
    with Inl a b show ?thesis by (simp add: text_response_try_def)
  next
    case (Inr sf)
    obtain chunks fin where sf: "sf = (chunks, fin)" by (cases sf)
    obtain st es r where l: "stream_loop (self E) init_state chunks fin = (st, es, r)"
      by (cases "stream_loop (self E) init_state chunks fin") auto
    with assms Inr sf have "r = Some e" "es = evs"
      by (auto simp: stream_raises_def split: if_splits option.splits)
    with Inr sf l a b show ?thesis by (simp add: text_response_try_def)
  qed
qed

lemma run_error:
  "e \<in> {AttributeError, TypeError, IndexError, JSONDecodeError} \<Longrightarrow>
   guarded slf (preceded evs aw n (finish [] (Raised e))) =
     \<lparr> yields = evs @ [create_yield_response slf (Str ''Error Occurred'') ''done'' None],
       ended = Returned, tasks = [], awaited = aw, llm_calls = n \<rparr>"
  by (auto simp: guarded_def text_response_except_def preceded_def finish_def)

lemma run_final:
  "guarded slf (preceded evs [] n (preceded [] aw 0 (finish [ev] Returned))) =
     \<lparr> yields = evs @ [ev], ended = Returned, tasks = [], awaited = aw, llm_calls = n \<rparr>"
  by (simp add: guarded_def preceded_def finish_def)

lemma handle_unknown:
  "tools_functions (snd fc) = None \<Longrightarrow>
   handle_function_call E p fc fargs at rsp cont = finish [] (Raised AttributeError)"
  by (simp add: handle_function_call_def)

lemma parse_arguments_fail:
  "json_loads E fargs = None \<Longrightarrow> parse_arguments E fargs = Inl JSONDecodeError"
  by (simp add: parse_arguments_def json_items_def)

lemma handle_malformed:
  "json_loads E fargs = None \<Longrightarrow>
   handle_function_call E p fc fargs at rsp cont = finish [] (Raised AttributeError) \<or>
   handle_function_call E p fc fargs at rsp cont = finish [] (Raised JSONDecodeError)"
  by (auto simp: handle_function_call_def parse_arguments_fail split: option.splits)

lemma handle_env_cong:
  assumes "self E = self E'" and "json_loads E = json_loads E'"
    and "call_tool p = call_tool p'"
    and "store_function_message p = store_function_message p'"
  shows "handle_function_call E p fc fargs at rsp cont =
         handle_function_call E' p' fc fargs at rsp cont"
proof -
  have pa: "parse_arguments E fargs = parse_arguments E' fargs"
    by (simp add: parse_arguments_def assms(2))
  show ?thesis
    unfolding handle_function_call_def pa assms(1) assms(3) assms(4) ..
qed

lemma try_env_cong:
  assumes "self E = self E'" and "json_loads E = json_loads E'"
  shows "text_response_try E p uq at cont = text_response_try E' p uq at cont"
proof -
  have h: "handle_function_call E p fc fargs at rsp cont =
           handle_function_call E' p fc fargs at rsp cont" for fc fargs rsp
    using assms by (rule handle_env_cong) simp_all
  show ?thesis
    unfolding text_response_try_def h assms(1) ..
qed

lemma llm_env_cong:
  "self E = self E' \<Longrightarrow> json_loads E = json_loads E' \<Longrightarrow>
   (\<And>j. k \<le> j \<Longrightarrow> world E j = world E' j) \<Longrightarrow>
   llm_text_response E n k uq at = llm_text_response E' n k uq at"
proof (induction n arbitrary: k uq at)
  case 0
  show ?case by simp
next
  case (Suc n)
  have w: "world E k = world E' k" using Suc.prems(3) by simp
  have rec: "llm_text_response E n (Suc k) None False = llm_text_response E' n (Suc k) None False"
    using Suc.prems by (intro Suc.IH) auto
  show ?case
    using Suc.prems(1,2) by (simp add: w rec try_env_cong[of E E'])
qed

lemma try_cut:
  assumes "create p = Inr (xs @ c # ys, fin)"
    and "is_tool_start c"
    and "stream_loop (self E) init_state xs None = (st, evs, None)"
    and "func_call st \<noteq> None"
  shows "text_response_try E p uq at cont =
         text_response_try E (p\<lparr>create := Inr (xs, None)\<rparr>) uq at cont"
proof -
  have full: "stream_loop (self E) init_state (xs @ c # ys) fin = (st, evs, None)"
    using assms(3,4,2) by (rule stream_loop_cut)
  have h: "handle_function_call E p fc fargs at rsp cont =
           handle_function_call E (p\<lparr>create := Inr (xs, None)\<rparr>) fc fargs at rsp cont"
    for fc fargs rsp
    by (rule handle_env_cong) simp_all
  show ?thesis
    by (simp add: text_response_try_def assms(1,3) full h split: option.splits)
qed

lemma item_final_put [simp]: "item_final (put_message sid cid e) = is_final e"
  by (simp add: put_message_def)

lemma nonfinal_count: "nonfinal (butlast evs) \<Longrightarrow> length (filter is_final evs) \<le> 1"
proof (cases "evs = []")
  case True
  then show ?thesis by simp
next
  case False
  assume nf: "nonfinal (butlast evs)"
  from False have "evs = butlast evs @ [last evs]" by simp
  then have "filter is_final evs = filter is_final (butlast evs) @ filter is_final [last evs]"
    by (metis filter_append)
  moreover from nf have "filter is_final (butlast evs) = []"
    by (auto simp: nonfinal_def list_all_iff filter_empty_conv)
  ultimately show ?thesis by simp
qed

lemma pushed_one_final:
  assumes "nonfinal (butlast evs)"
  shows "length (filter item_final (map (put_message sid cid) evs)) \<le> 1
       \<and> list_all (\<lambda>x. \<not> item_final x) (butlast (map (put_message sid cid) evs))"
proof -
  have "filter item_final (map (put_message sid cid) evs)
          = map (put_message sid cid) (filter is_final evs)"
    by (simp add: filter_map comp_def)
  with nonfinal_count[OF assms]
  have one: "length (filter item_final (map (put_message sid cid) evs)) \<le> 1" by simp
  have "butlast (map (put_message sid cid) evs) = map (put_message sid cid) (butlast evs)"
    by (simp add: map_butlast)
  with assms have "list_all (\<lambda>x. \<not> item_final x) (butlast (map (put_message sid cid) evs))"
    by (simp add: nonfinal_def list_all_iff)
  with one show ?thesis by simp
qed

lemma enqueue_chat_runs:
  "fst (enqueue_chat_messages uq sid cid n rounds q) =
     q @ concat (map (\<lambda>r. map (put_message sid cid) (yields r)) (chat_runs uq n rounds))"
proof (induction rounds arbitrary: q)
  case Nil
  show ?case by simp
next
  case (Cons a rounds)
  obtain d E where a: "a = (d, E)" by (cases a)
  show ?case
    unfolding a by (simp add: Let_def Cons.IH split: outcome.splits)
qed

lemma chat_runs_well_ended:
  assumes "list_all (\<lambda>(d, E). logging_safe E n) rounds"
  shows "list_all well_ended (chat_runs uq n rounds)"
  using assms
proof (induction rounds)
  case Nil
  show ?case by simp
next
  case (Cons a rounds)
  obtain d E where a: "a = (d, E)" by (cases a)
  from Cons.prems have "logging_safe E n" by (simp add: a)
  then have "\<forall>i<n. count_tokens (world E (0 + i)) = None"
    by (simp add: logging_safe_def list_all_iff)
  then have "well_ended (llm_text_response E n 0 uq False)"
    by (rule well_ended_llm_text_response)
  moreover from Cons have "list_all well_ended (chat_runs uq n rounds)" by simp
  ultimately show ?case
    unfolding a by (simp add: Let_def)
qed

section \<open>At most one final event per round\<close>

text \<open>
  Claim C2, as amended. The messages that \<open>_enqueue_chat_messages\<close> puts on the queue are
  those that the runs of \<open>llm_text_response\<close> yield, round after round, in order. When the
  logging of the token count after the final \<open>yield\<close> raises in no pass, the messages of
  each round have \<open>is_final\<close> set at most once, and every message of the round but its
  last has it unset. This holds for every environment, every number of rounds and every
  amount of fuel, so also for a round that is still running or that ends with an
  exception.
\<close>

theorem chat_rounds_one_final_each:
  assumes "list_all (\<lambda>(d, E). logging_safe E fuel) rounds"
    and "segments = map (\<lambda>r. map (put_message sid cid) (yields r)) (chat_runs uq fuel rounds)"
  shows "fst (enqueue_chat_messages uq sid cid fuel rounds q) = q @ concat segments
       \<and> list_all (\<lambda>seg. length (filter item_final seg) \<le> 1
                         \<and> list_all (\<lambda>x. \<not> item_final x) (butlast seg)) segments"
proof -
  have "list_all well_ended (chat_runs uq fuel rounds)"
    using assms(1) by (rule chat_runs_well_ended)
  then have nf: "nonfinal (butlast (yields r))" if "r \<in> set (chat_runs uq fuel rounds)" for r
    using that by (simp add: list_all_iff well_ended_def)
  have "length (filter item_final seg) \<le> 1 \<and> list_all (\<lambda>x. \<not> item_final x) (butlast seg)"
    if "seg \<in> set segments" for seg
  proof -
    from that obtain r where r: "r \<in> set (chat_runs uq fuel rounds)"
      and seg: "seg = map (put_message sid cid) (yields r)"
      unfolding assms(2) by auto
    from nf[OF r] show ?thesis unfolding seg by (rule pushed_one_final)
  qed
  then have "list_all (\<lambda>seg. length (filter item_final seg) \<le> 1
                         \<and> list_all (\<lambda>x. \<not> item_final x) (butlast seg)) segments"
    unfolding list_all_iff by blast
  with enqueue_chat_runs[of uq sid cid fuel rounds q] assms(2) show ?thesis by simp
qed

theorem chat_rounds_one_final_each_witness:
  "list_all (\<lambda>(d, E). logging_safe E 1)
     [(False, text_turn), (False, text_turn), (True, text_turn)]
   \<and> fst (enqueue_chat_messages (Some ''Hello'') ''session-1'' ''corr-1'' 1
            [(False, text_turn), (False, text_turn), (True, text_turn)] [])
       = [] @ concat (map (\<lambda>r. map (put_message ''session-1'' ''corr-1'') (yields r))
                        (chat_runs (Some ''Hello'') 1
                           [(False, text_turn), (False, text_turn), (True, text_turn)]))
   \<and> list_all (\<lambda>seg. length (filter item_final seg) \<le> 1
                     \<and> list_all (\<lambda>x. \<not> item_final x) (butlast seg))
        (map (\<lambda>r. map (put_message ''session-1'' ''corr-1'') (yields r))
           (chat_runs (Some ''Hello'') 1
              [(False, text_turn), (False, text_turn), (True, text_turn)]))
   \<and> map (\<lambda>r. map is_final (yields r))
        (chat_runs (Some ''Hello'') 1
           [(False, text_turn), (False, text_turn), (True, text_turn)])
       = [[False, False, True], [False, False, True]]"
proof -
  have h: "list_all (\<lambda>(d, E). logging_safe E 1)
             [(False, text_turn), (False, text_turn), (True, text_turn)]"
    by code_simp
  have rounds: "map (\<lambda>r. map is_final (yields r))
                  (chat_runs (Some ''Hello'') 1
                     [(False, text_turn), (False, text_turn), (True, text_turn)])
                = [[False, False, True], [False, False, True]]"
    by code_simp
  from chat_rounds_one_final_each[OF h refl, of "Some ''Hello''" "''session-1''" "''corr-1''" "[]"]
    h rounds
  show ?thesis by blast
qed

text \<open>Claim C2 as stated fails. With the client still connected, the loop runs scenario A
  a second time and puts its three messages on the queue after the final message of the
  first round. And when the token count of the logging raises after the final \<open>yield\<close>,
  the \<open>except\<close> clause yields a second final message in the same round.\<close>

theorem chat_rounds_push_after_final:
  "map item_final
     (fst (enqueue_chat_messages (Some ''Hello'') ''session-1'' ''corr-1'' 1
             [(False, text_turn), (False, text_turn)] []))
     = [False, False, True, False, False, True]
   \<and> map item_final
       (fst (enqueue_chat_messages (Some ''Hello'') ''session-1'' ''corr-1'' 1
               [(False, logging_fails_turn)] []))
     = [False, False, True, True]"
  by code_simp

section \<open>What the final event of a tool turn carries\<close>

text \<open>
  Claim C3, as amended. When a synchronous tool is dispatched and its handler returns
  \<open>(content, False)\<close>, the turn yields exactly one final event after the in-progress
  events, and its answer is the \<open>response\<close> local (the aside extracted from the
  arguments, or else the text buffer), whatever content the handler returned.
\<close>

theorem sync_tool_final_is_response:
  assumes "streamed (self E) (world E k) uq = Some (st, evs)"
    and "func_call st = Some (call_id, name)"
    and "tools_functions name = Some (t, True)"
    and "\<not> at"
    and "parse_arguments E (func_arguments st) = Inr args"
    and "call_tool (world E k) t args = Inr (Inr (tool_content, False))"
    and "store_function_message (world E k) = None"
  shows "llm_text_response E (Suc n) k uq at =
           \<lparr> yields = evs @ [create_yield_response (self E) (normalise (response st)) ''done'' None],
             ended = Returned, tasks = [], awaited = [(t, args)], llm_calls = 1 \<rparr>"
  using assms(2-7)
  by (simp add: try_streamed[OF assms(1)] handle_function_call_def run_final)

theorem sync_tool_final_is_response_witness:
  "streamed (self sync_tool_turn) (world sync_tool_turn 0) (Some ''find excel'')
     = Some (find_locals, [])
   \<and> call_tool (world sync_tool_turn 0) find_content [(''search_word'', JString ''excel'')]
     = Inr (Inr (''Title: ...'', False))
   \<and> llm_text_response sync_tool_turn (Suc 0) 0 (Some ''find excel'') False =
       \<lparr> yields = [] @ [create_yield_response (self sync_tool_turn)
                           (normalise (response find_locals)) ''done'' None],
         ended = Returned, tasks = [],
         awaited = [(find_content, [(''search_word'', JString ''excel'')])], llm_calls = 1 \<rparr>"
proof -
  have h1: "streamed (self sync_tool_turn) (world sync_tool_turn 0) (Some ''find excel'')
              = Some (find_locals, [])"
    by code_simp
  have h2: "func_call find_locals = Some (''call_1'', ''Find_content'')"
    by (simp add: find_locals_def)
  have h3: "tools_functions ''Find_content'' = Some (find_content, True)"
    by (simp add: tools_functions_def)
  have h4: "\<not> False" by simp
  have h5: "parse_arguments sync_tool_turn (func_arguments find_locals)
              = Inr [(''search_word'', JString ''excel'')]"
    by code_simp
  have h6: "call_tool (world sync_tool_turn 0) find_content [(''search_word'', JString ''excel'')]
              = Inr (Inr (''Title: ...'', False))"
    by (simp add: sync_tool_turn_def turn_with_def quiet_pass_def)
  have h7: "store_function_message (world sync_tool_turn 0) = None"
    by (simp add: sync_tool_turn_def turn_with_def quiet_pass_def)
  from sync_tool_final_is_response[OF h1 h2 h3 h4 h5 h6 h7, of 0] h1 h6
  show ?thesis by blast
qed

text \<open>Claim C3 as stated fails on scenario B: the handler returns the content
  \<open>Title: ...\<close> with no continuation, and the final event carries the aside.\<close>

theorem sync_tool_final_ignores_content:
  "call_tool (world sync_tool_turn 0) find_content [(''search_word'', JString ''excel'')]
     = Inr (Inr (''Title: ...'', False))
   \<and> awaited (llm_text_response sync_tool_turn 1 0 (Some ''find excel'') False)
     = [(find_content, [(''search_word'', JString ''excel'')])]
   \<and> map answer (filter is_final (yields (llm_text_response sync_tool_turn 1 0 (Some ''find excel'') False)))
     = [Str ''Sure, let me look'']
   \<and> Str ''Sure, let me look'' \<noteq> Str ''Title: ...''"
  by code_simp

text \<open>
  Claim C4, at a turn that breaks it. The model emits the text \<open>Hi\<close> and then calls
  \<open>Weather\<close>, a tool that is not registered. \<open>self.tools.functions.get\<close> gives \<open>None\<close>
  for it and the \<open>.get("function")\<close> chained to it raises before the guard
  \<open>if function:\<close> is reached, so the turn ends with the error text as the answer of its
  final event, where the text buffer is \<open>Hi\<close>; no handler is called.
\<close>

theorem unknown_tool_final_is_not_text:
  "tools_functions ''Weather'' = None
   \<and> response (fst (stream_loop a_client init_state
                      [text_chunk ''Hi'', tool_start ''call_1'' ''Weather''] None)) = Str ''Hi''
   \<and> map answer (filter is_final (yields (llm_text_response unknown_tool_turn 1 0 (Some ''weather?'') False)))
     = [Str ''Error Occurred'']
   \<and> Str ''Error Occurred'' \<noteq> Str ''Hi''"
  by code_simp

text \<open>The same happens for every tool name that is not registered, after any stream.\<close>

lemma unknown_tool_run:
  assumes "streamed (self E) (world E k) uq = Some (st, evs)"
    and "func_call st = Some (call_id, name)"
    and "tools_functions name = None"
  shows "llm_text_response E (Suc n) k uq at =
           \<lparr> yields = evs @ [create_yield_response (self E) (Str ''Error Occurred'') ''done'' None],
             ended = Returned, tasks = [], awaited = [], llm_calls = 1 \<rparr>"
  using assms(2,3) by (simp add: try_streamed[OF assms(1)] handle_unknown run_error)

text \<open>
  Claim C5, as amended. When \<open>json.loads\<close> fails on the accumulated argument text, no
  handler is called and the turn ends with exactly one final event whose answer is the
  error text \<open>Error Occurred\<close>.
\<close>

theorem malformed_arguments_are_error:
  assumes "streamed (self E) (world E k) uq = Some (st, evs)"
    and "func_call st = Some fc"
    and "json_loads E (func_arguments st) = None"
  shows "llm_text_response E (Suc n) k uq at =
           \<lparr> yields = evs @ [create_yield_response (self E) (Str ''Error Occurred'') ''done'' None],
             ended = Returned, tasks = [], awaited = [], llm_calls = 1 \<rparr>"
  using assms(2) handle_malformed[OF assms(3), of "world E k" fc at "normalise (response st)"
      "llm_text_response E n (Suc k) None False"]
  by (auto simp: try_streamed[OF assms(1)] run_error)

theorem malformed_arguments_are_error_witness:
  "streamed (self malformed_args_turn) (world malformed_args_turn 0) (Some ''find excel'')
     = Some (malformed_locals, [hi_event])
   \<and> json_loads malformed_args_turn (func_arguments malformed_locals) = None
   \<and> llm_text_response malformed_args_turn (Suc 0) 0 (Some ''find excel'') False =
       \<lparr> yields = [hi_event] @ [create_yield_response (self malformed_args_turn)
                                   (Str ''Error Occurred'') ''done'' None],
         ended = Returned, tasks = [], awaited = [], llm_calls = 1 \<rparr>"
proof -
  have h1: "streamed (self malformed_args_turn) (world malformed_args_turn 0) (Some ''find excel'')
              = Some (malformed_locals, [hi_event])"
    by code_simp
  have h2: "func_call malformed_locals = Some (''call_1'', ''Find_content'')"
    by (simp add: malformed_locals_def)
  have h3: "json_loads malformed_args_turn (func_arguments malformed_locals) = None"
    by code_simp
  from malformed_arguments_are_error[OF h1 h2 h3, of 0 False] h1 h3
  show ?thesis by blast
qed

text \<open>Claim C5 as stated fails: the argument text stops after the first key, the text
  buffer is \<open>Hi\<close>, and the final event carries the error text.\<close>

theorem malformed_arguments_final_is_not_text:
  "json_loads malformed_args_turn (take 14 find_args) = None
   \<and> response (fst (stream_loop a_client init_state
                      [text_chunk ''Hi'', tool_start ''call_1'' ''Find_content'',
                       arg_fragment (take 14 find_args)] None)) = Str ''Hi''
   \<and> map answer (filter is_final (yields (llm_text_response malformed_args_turn 1 0 (Some ''find excel'') False)))
     = [Str ''Error Occurred'']
   \<and> Str ''Error Occurred'' \<noteq> Str ''Hi''"
  by code_simp




section \<open>The content filter\<close>

text \<open>
  Claim C9, as amended. When the model rejects the generation through the content filter,
  at the opening of the stream or inside it, the turn yields no further in-progress event
  and exactly one final event; its answer is the \<open>message\<close> of the error payload when the
  payload has one, and the fixed apology otherwise. The model is called once.
\<close>

theorem content_filter_final:
  assumes "stream_raises (self E) (world E k) uq = Some (evs, BadRequestError 400 (Some body))"
    and "map_of body ''code'' = Some ''content_filter''"
  shows "llm_text_response E (Suc n) k uq at =
           \<lparr> yields = evs @ [create_yield_response (self E)
                               (Str (case map_of body ''message'' of
                                       Some m \<Rightarrow> m
                                     | None \<Rightarrow> content_filter_message))
                               ''done'' None],
             ended = Returned, tasks = [], awaited = [], llm_calls = 1 \<rparr>"
  using assms(2)
  by (simp add: try_raises[OF assms(1)] guarded_def text_response_except_def preceded_def
      finish_def)

theorem content_filter_final_witness:
  "stream_raises (self filtered_turn) (world filtered_turn 0) (Some ''hi'')
     = Some ([], BadRequestError 400
                   (Some [(''code'', ''content_filter''),
                          (''message'', ''The response was filtered'')]))
   \<and> map_of [(''code'', ''content_filter''), (''message'', ''The response was filtered'')] ''code''
     = Some ''content_filter''
   \<and> llm_text_response filtered_turn (Suc 0) 0 (Some ''hi'') False =
       \<lparr> yields = [] @ [create_yield_response (self filtered_turn)
                           (Str (case map_of [(''code'', ''content_filter''),
                                              (''message'', ''The response was filtered'')]
                                        ''message'' of
                                   Some m \<Rightarrow> m
                                 | None \<Rightarrow> content_filter_message))
                           ''done'' None],
         ended = Returned, tasks = [], awaited = [], llm_calls = 1 \<rparr>"
proof -
  have h1: "stream_raises (self filtered_turn) (world filtered_turn 0) (Some ''hi'')
     = Some ([], BadRequestError 400
                   (Some [(''code'', ''content_filter''),
                          (''message'', ''The response was filtered'')]))"
    by code_simp
  have h2: "map_of [(''code'', ''content_filter''), (''message'', ''The response was filtered'')] ''code''
     = Some ''content_filter''"
    by simp
  from content_filter_final[OF h1 h2, of 0 False] h1 h2
  show ?thesis by blast
qed

text \<open>Claim C9 as stated fails: the answer of the terminal event is the message of the
  error payload, not the fixed apology.\<close>

theorem content_filter_answer_is_payload:
  "map answer (filter is_final (yields (llm_text_response filtered_turn 1 0 (Some ''hi'') False)))
     = [Str ''The response was filtered'']
   \<and> Str ''The response was filtered'' \<noteq> Str content_filter_message"
  by code_simp

section \<open>Tool-call fragments\<close>

text \<open>
  Claim C6. When a tool call is open and a second tool-call-start fragment arrives, the
  loop stops there: its locals and events are those of the stream that ends right before
  that fragment, and the whole turn is the turn of that shorter stream. So the tool
  dispatched is the first one, with the arguments received before the second start.
\<close>

theorem second_tool_start_is_dropped:
  assumes "create (world E k) = Inr (xs @ c # ys, fin)"
    and "is_tool_start c"
    and "stream_loop (self E) init_state xs None = (st, evs, None)"
    and "func_call st = Some first_call"
    and "E' = E\<lparr> world := (world E)(k := (world E k)\<lparr> create := Inr (xs, None) \<rparr>) \<rparr>"
  shows "stream_loop (self E) init_state (xs @ c # ys) fin = (st, evs, None)
       \<and> llm_text_response E (Suc n) k uq at = llm_text_response E' (Suc n) k uq at"
proof
  from assms(4) have open_call: "func_call st \<noteq> None" by simp
  show "stream_loop (self E) init_state (xs @ c # ys) fin = (st, evs, None)"
    using assms(3) open_call assms(2) by (rule stream_loop_cut)
  have rec: "llm_text_response E n (Suc k) None False = llm_text_response E' n (Suc k) None False"
    by (rule llm_env_cong) (simp_all add: assms(5))
  have "text_response_try E (world E k) uq at (llm_text_response E n (Suc k) None False) =
        text_response_try E ((world E k)\<lparr>create := Inr (xs, None)\<rparr>) uq at
          (llm_text_response E n (Suc k) None False)"
    using assms(1,2,3) open_call by (rule try_cut)
  also have "\<dots> = text_response_try E' (world E' k) uq at (llm_text_response E' n (Suc k) None False)"
    by (simp add: rec assms(5) try_env_cong[of E "E\<lparr> world := (world E)(k := (world E k)\<lparr> create := Inr (xs, None) \<rparr>) \<rparr>"])
  finally show "llm_text_response E (Suc n) k uq at = llm_text_response E' (Suc n) k uq at"
    by (simp add: assms(5))
qed

theorem second_tool_start_is_dropped_witness:
  "create (world two_starts_turn 0) =
     Inr ([tool_start ''call_1'' ''Find_content'', arg_fragment find_args]
            @ tool_start ''call_2'' ''Prepare_Plan''
            # [arg_fragment plan_args, text_chunk ''ignored''], None)
   \<and> is_tool_start (tool_start ''call_2'' ''Prepare_Plan'')
   \<and> stream_loop (self two_starts_turn) init_state
         [tool_start ''call_1'' ''Find_content'', arg_fragment find_args] None
       = (find_locals, [], None)
   \<and> func_call find_locals = Some (''call_1'', ''Find_content'')
   \<and> stream_loop (self two_starts_turn) init_state
         ([tool_start ''call_1'' ''Find_content'', arg_fragment find_args]
            @ tool_start ''call_2'' ''Prepare_Plan''
            # [arg_fragment plan_args, text_chunk ''ignored'']) None
       = (find_locals, [], None)
   \<and> llm_text_response two_starts_turn (Suc 0) 0 (Some ''find excel'') False =
       llm_text_response
         (two_starts_turn\<lparr> world := (world two_starts_turn)
             (0 := (world two_starts_turn 0)
                \<lparr> create := Inr ([tool_start ''call_1'' ''Find_content'',
                                    arg_fragment find_args], None) \<rparr>) \<rparr>)
         (Suc 0) 0 (Some ''find excel'') False
   \<and> awaited (llm_text_response two_starts_turn (Suc 0) 0 (Some ''find excel'') False)
       = [(find_content, [(''search_word'', JString ''excel'')])]
   \<and> tasks (llm_text_response two_starts_turn (Suc 0) 0 (Some ''find excel'') False) = []"
proof -
  have h1: "create (world two_starts_turn 0) =
     Inr ([tool_start ''call_1'' ''Find_content'', arg_fragment find_args]
            @ tool_start ''call_2'' ''Prepare_Plan''
            # [arg_fragment plan_args, text_chunk ''ignored''], None)"
    by (simp add: two_starts_turn_def turn_with_def)
  have h2: "is_tool_start (tool_start ''call_2'' ''Prepare_Plan'')"
    by (simp add: is_tool_start_def tool_start_def)
  have h3: "stream_loop (self two_starts_turn) init_state
         [tool_start ''call_1'' ''Find_content'', arg_fragment find_args] None
       = (find_locals, [], None)"
    by code_simp
  have h4: "func_call find_locals = Some (''call_1'', ''Find_content'')"
    by (simp add: find_locals_def)
  have only_first:
    "awaited (llm_text_response two_starts_turn (Suc 0) 0 (Some ''find excel'') False)
       = [(find_content, [(''search_word'', JString ''excel'')])]"
    "tasks (llm_text_response two_starts_turn (Suc 0) 0 (Some ''find excel'') False) = []"
    by code_simp+
  from second_tool_start_is_dropped[OF h1 h2 h3 h4 refl, of 0 "Some ''find excel''" False]
    h1 h2 h3 h4 only_first
  show ?thesis by blast
qed

text \<open>
  Claim C7. The argument text accumulated from any number of argument-delta fragments is
  the concatenation of their texts in arrival order, so the arguments parsed from it are
  those parsed when the whole text arrives in a single fragment.
\<close>

theorem argument_chunking_is_irrelevant:
  assumes "list_all2 is_arg_delta cs frags"
    and "is_arg_delta c (concat frags)"
  shows "func_arguments (fst (stream_loop slf st cs fin)) = func_arguments st @ concat frags
       \<and> parse_arguments E (func_arguments (fst (stream_loop slf st cs fin))) =
         parse_arguments E (func_arguments (fst (stream_loop slf st [c] fin)))"
proof -
  have many: "func_arguments (fst (stream_loop slf st cs fin)) = func_arguments st @ concat frags"
    using assms(1) by (rule arg_deltas_accumulate)
  have "list_all2 is_arg_delta [c] [concat frags]" using assms(2) by simp
  then have "func_arguments (fst (stream_loop slf st [c] fin)) =
             func_arguments st @ concat [concat frags]"
    by (rule arg_deltas_accumulate)
  with many show ?thesis by simp
qed

theorem argument_chunking_is_irrelevant_witness:
  "list_all2 is_arg_delta
     [arg_fragment (take 14 find_args), arg_fragment (take 20 (drop 14 find_args)),
      arg_fragment (drop 34 find_args)]
     [take 14 find_args, take 20 (drop 14 find_args), drop 34 find_args]
   \<and> is_arg_delta (arg_fragment find_args)
        (concat [take 14 find_args, take 20 (drop 14 find_args), drop 34 find_args])
   \<and> func_arguments
        (fst (stream_loop a_client (init_state\<lparr>func_call := Some (''call_1'', ''Find_content'')\<rparr>)
                [arg_fragment (take 14 find_args), arg_fragment (take 20 (drop 14 find_args)),
                 arg_fragment (drop 34 find_args)] None))
       = func_arguments (init_state\<lparr>func_call := Some (''call_1'', ''Find_content'')\<rparr>)
         @ concat [take 14 find_args, take 20 (drop 14 find_args), drop 34 find_args]
   \<and> parse_arguments sync_tool_turn
        (func_arguments
           (fst (stream_loop a_client (init_state\<lparr>func_call := Some (''call_1'', ''Find_content'')\<rparr>)
                   [arg_fragment (take 14 find_args), arg_fragment (take 20 (drop 14 find_args)),
                    arg_fragment (drop 34 find_args)] None)))
       = parse_arguments sync_tool_turn
           (func_arguments
              (fst (stream_loop a_client (init_state\<lparr>func_call := Some (''call_1'', ''Find_content'')\<rparr>)
                      [arg_fragment find_args] None)))
   \<and> parse_arguments sync_tool_turn
        (func_arguments
           (fst (stream_loop a_client (init_state\<lparr>func_call := Some (''call_1'', ''Find_content'')\<rparr>)
                   [arg_fragment find_args] None)))
       = Inr [(''search_word'', JString ''excel'')]"
proof -
  have h1: "list_all2 is_arg_delta
     [arg_fragment (take 14 find_args), arg_fragment (take 20 (drop 14 find_args)),
      arg_fragment (drop 34 find_args)]
     [take 14 find_args, take 20 (drop 14 find_args), drop 34 find_args]"
    by (simp add: is_arg_delta_def arg_fragment_def)
  have h2: "is_arg_delta (arg_fragment find_args)
        (concat [take 14 find_args, take 20 (drop 14 find_args), drop 34 find_args])"
    by code_simp
  have whole: "parse_arguments sync_tool_turn
        (func_arguments
           (fst (stream_loop a_client (init_state\<lparr>func_call := Some (''call_1'', ''Find_content'')\<rparr>)
                   [arg_fragment find_args] None)))
       = Inr [(''search_word'', JString ''excel'')]"
    by code_simp
  from argument_chunking_is_irrelevant[OF h1 h2,
      of a_client "init_state\<lparr>func_call := Some (''call_1'', ''Find_content'')\<rparr>" None
         sync_tool_turn]
    h1 h2 whole
  show ?thesis by blast
qed

end
